theory Spec2Isabelle
  imports Main
begin

section \<open>Go values shared by the two packages\<close>

text \<open>
  A JSON token as \<^verbatim>\<open>json.Decoder.Token\<close> of the Go standard library returns it: one
  of the four delimiters, a string (object keys come as strings too), a number (kept as
  its literal text), a boolean or null.
\<close>

datatype token = Delim char | TString string | TNumber string | TBool bool | TNull

text \<open>
  Go's \<^verbatim>\<open>error\<close> values, as far as the modelled code builds or tells them apart:
  \<^verbatim>\<open>io.EOF\<close>, a decoding error of \<^verbatim>\<open>encoding/json\<close>, the error of
  \<^verbatim>\<open>newUnknownAttributeError(k)\<close> with its key, the errors of the document
  helpers, the errors of the section handlers, and \<^verbatim>\<open>fmt.Errorf\<close> with its message.
\<close>

datatype error =
    EOF
  | SyntaxError string
  | UnknownAttributeError string
  | RootObjectStartTokenError token
  | RootObjectStartDelimiterError char
  | ObjectStartTokenError token string
  | ObjectStartDelimiterError char string
  | ObjectTokenError token string
  | ObjectEndDelimiterError char string
  | StringTokenError token string
  | MissingEOFError token
  | RedeclaredAttributeError string
  | UndeclaredAttributeError string
  | Errorf string

section \<open>pdpserver/trace.go\<close>

text \<open>
  \<^verbatim>\<open>strings.Index(s, substr)\<close>: the index of the first occurrence of \<open>substr\<close> in
  \<open>s\<close>, or \<open>-1\<close>.
\<close>

fun Index :: "string \<Rightarrow> string \<Rightarrow> int" where
  "Index [] substr = (if substr = [] then 0 else - 1)"
| "Index (c # s) substr =
     (if take (length substr) (c # s) = substr then 0
      else (let i = Index s substr in if i = - 1 then - 1 else i + 1))"

text \<open>
  The zipkin client library is not part of the repository: its three constructors are
  the fields of a record. A collector, a recorder and a tracer are values of the type
  parameters; a nil tracer is \<open>None\<close>.
\<close>

record ('c, 'r, 't) zipkin =
  NewHTTPCollector :: "string \<Rightarrow> 'c \<times> error option"
  NewRecorder :: "'c \<Rightarrow> bool \<Rightarrow> string \<Rightarrow> string \<Rightarrow> 'r"
  NewTracer :: "'r \<Rightarrow> 't option \<times> error option"

definition setupZipkin :: "('c, 'r, 't) zipkin \<Rightarrow> string \<Rightarrow> 't option \<times> error option" where
  "setupZipkin Z tracingEP =
     (let ep = (if Index tracingEP ''http'' = - 1
                then ''http://'' @ tracingEP @ ''/api/v1/spans'' else tracingEP)
      in case NewHTTPCollector Z ep of
           (collector, Some err) \<Rightarrow> (None, Some err)
         | (collector, None) \<Rightarrow> NewTracer Z (NewRecorder Z collector False [] ''PDP''))"

definition InitTracing ::
  "('c, 'r, 't) zipkin \<Rightarrow> string \<Rightarrow> string \<Rightarrow> 't option \<times> error option" where
  "InitTracing Z tracingType tracingEP =
     (if tracingEP = [] then (None, None)
      else if tracingType = ''zipkin'' then setupZipkin Z tracingEP
      else (None, Some (Errorf (''Invalid tracing type: '' @ tracingType))))"

section \<open>The JSON decoder and the document helpers of jparser\<close>

text \<open>
  \<^verbatim>\<open>*json.Decoder\<close> (Go standard library), as seen through its \<^verbatim>\<open>Token\<close> method: the
  tokens not read yet, and how the input ends after them (\<open>None\<close>: end of input,
  \<^verbatim>\<open>io.EOF\<close>; \<open>Some e\<close>: the input is malformed there and every further read
  returns \<open>e\<close>). Reading only moves forward.
\<close>

record decoder =
  tokens :: "token list"
  failure :: "error option"

definition Token :: "decoder \<Rightarrow> (error + token) \<times> decoder" where
  "Token d =
     (case tokens d of
        t # ts \<Rightarrow> (Inr t, d\<lparr>tokens := ts\<rparr>)
      | [] \<Rightarrow> (case failure d of None \<Rightarrow> (Inl EOF, d) | Some e \<Rightarrow> (Inl e, d)))"

text \<open>
  A Go function or method that reads from the decoder, may change the receiver (of type
  \<open>'c\<close>) and returns an \<^verbatim>\<open>error\<close>: it maps the decoder and the receiver to the
  error (\<open>None\<close> is nil) and their new states. The state is part of the result also
  when the error is not nil, since Go keeps what was written before the return. The
  outer \<open>option\<close> is \<open>None\<close> when the call does not return.
\<close>

type_synonym 'c action = "decoder \<times> 'c \<Rightarrow> (error option \<times> decoder \<times> 'c) option"

text \<open>
  The helpers of package \<^verbatim>\<open>jparser\<close> that the parser calls are not among the sources.
  They are written here from the parser's contract (section 4.2: a single streaming
  pass, a dispatch on every key of an object, the first structural error is returned)
  and from the document format (section 6: the document is an object), token by token.
\<close>

text \<open>
  Modelled from the spec: \<^verbatim>\<open>jparser.CheckRootObjectStart\<close>, which is not among the
  sources. It reads one token: at the end of input it reports that there is no root
  object, with no error; the delimiter \<open>{\<close> starts the root object; anything else,
  and a decoding error, is an error.
\<close>

definition CheckRootObjectStart :: "decoder \<Rightarrow> (bool \<times> error option) \<times> decoder" where
  "CheckRootObjectStart d =
     (case Token d of
        (Inl EOF, d') \<Rightarrow> ((False, None), d')
      | (Inl err, d') \<Rightarrow> ((False, Some err), d')
      | (Inr (Delim c), d') \<Rightarrow>
          if c = CHR ''{'' then ((True, None), d')
          else ((False, Some (RootObjectStartDelimiterError c)), d')
      | (Inr t, d') \<Rightarrow> ((False, Some (RootObjectStartTokenError t)), d'))"

text \<open>
  Modelled from the spec: \<^verbatim>\<open>jparser.UnmarshalObject\<close>, which is not among the sources:
  the loop over the members of an object whose \<open>{\<close> has been read. A string token is a
  key and is handed to the callback \<open>u\<close> together with the decoder; an error of \<open>u\<close>
  ends the loop and is returned; the delimiter \<open>}\<close> ends the loop with no error; any
  other token and any decoding error is an error. The loop has no bound of its own, so
  the result is \<open>None\<close> when it does not return.
\<close>

partial_function (option) UnmarshalObject ::
  "(string \<Rightarrow> 'c action) \<Rightarrow> string \<Rightarrow> 'c action" where
  "UnmarshalObject u desc s =
     (case Token (fst s) of
        (Inl err, d') \<Rightarrow> Some (Some err, d', snd s)
      | (Inr (TString k), d') \<Rightarrow>
          (case u k (d', snd s) of
             None \<Rightarrow> None
           | Some (Some err, s') \<Rightarrow> Some (Some err, s')
           | Some (None, s') \<Rightarrow> UnmarshalObject u desc s')
      | (Inr (Delim c), d') \<Rightarrow>
          if c = CHR ''}'' then Some (None, d', snd s)
          else Some (Some (ObjectEndDelimiterError c desc), d', snd s)
      | (Inr t, d') \<Rightarrow> Some (Some (ObjectTokenError t desc), d', snd s))"

declare UnmarshalObject.simps [code]

text \<open>
  Modelled from the spec: \<^verbatim>\<open>jparser.CheckEOF\<close>, which is not among the sources. It reads
  one token and returns no error only at the end of input.
\<close>

definition CheckEOF :: "decoder \<Rightarrow> error option \<times> decoder" where
  "CheckEOF d =
     (case Token d of
        (Inl EOF, d') \<Rightarrow> (None, d')
      | (Inl err, d') \<Rightarrow> (Some err, d')
      | (Inr t, d') \<Rightarrow> (Some (MissingEOFError t), d'))"

text \<open>
  Modelled from the spec: \<^verbatim>\<open>jparser.CheckObjectStart\<close>, which is not among the sources:
  the next token must be the delimiter \<open>{\<close>.
\<close>

definition CheckObjectStart :: "decoder \<Rightarrow> string \<Rightarrow> error option \<times> decoder" where
  "CheckObjectStart d desc =
     (case Token d of
        (Inl err, d') \<Rightarrow> (Some err, d')
      | (Inr (Delim c), d') \<Rightarrow>
          if c = CHR ''{'' then (None, d') else (Some (ObjectStartDelimiterError c desc), d')
      | (Inr t, d') \<Rightarrow> (Some (ObjectStartTokenError t desc), d'))"

text \<open>
  Modelled from the spec: \<^verbatim>\<open>jparser.GetString\<close>, which is not among the sources: the
  next token must be a string, which is returned.
\<close>

definition GetString :: "decoder \<Rightarrow> string \<Rightarrow> (error + string) \<times> decoder" where
  "GetString d desc =
     (case Token d of
        (Inl err, d') \<Rightarrow> (Inl err, d')
      | (Inr (TString v), d') \<Rightarrow> (Inr v, d')
      | (Inr t, d') \<Rightarrow> (Inl (StringTokenError t desc), d'))"

text \<open>
  The keys that the loop of \<open>UnmarshalObject u\<close> has dispatched: \<open>dispatch_keys u s ks\<close>
  is \<open>Some s'\<close> when the loop, started in state \<open>s\<close>, reads the keys \<open>ks\<close> one after the
  other, \<open>u\<close> returns no error for any of them, and the loop is in state \<open>s'\<close> before its
  next read; it is \<open>None\<close> otherwise.
\<close>

fun dispatch_keys :: "(string \<Rightarrow> 'c action) \<Rightarrow> decoder \<times> 'c \<Rightarrow> string list \<Rightarrow> (decoder \<times> 'c) option" where
  "dispatch_keys u s [] = Some s"
| "dispatch_keys u s (k # ks) =
     (case Token (fst s) of
        (Inr (TString k'), d') \<Rightarrow>
          (if k' = k
           then (case u k (d', snd s) of
                   Some (None, s') \<Rightarrow> dispatch_keys u s' ks
                 | _ \<Rightarrow> None)
           else None)
      | _ \<Rightarrow> None)"

section \<open>The parser's context and its unmarshal method\<close>

text \<open>
  \<^verbatim>\<open>strings.ToLower\<close> (Go standard library). A string is its bytes. When every byte is
  ASCII, the upper-case letters \<open>A\<close> to \<open>Z\<close> are moved by \<open>'a' - 'A'\<close> and the other
  bytes are kept; otherwise Go maps the string rune by rune through the Unicode tables,
  which are a parameter here.
\<close>

definition lowerASCII :: "char \<Rightarrow> char" where
  "lowerASCII c =
     (let n = (of_char c :: nat) in if 65 \<le> n \<and> n \<le> 90 then char_of (n + 32) else c)"

definition ToLower :: "(string \<Rightarrow> string) \<Rightarrow> string \<Rightarrow> string" where
  "ToLower unicodeLower s =
     (if list_all (\<lambda>c. (of_char c :: nat) < 128) s then map lowerASCII s
      else unicodeLower s)"

text \<open>
  The casing variants of a tag, stated without \<open>ToLower\<close>: \<open>upperASCII\<close> is the
  upper-case letter of a lower-case ASCII letter; a tag is written in lower case when all
  its bytes are ASCII and none is an upper-case letter; \<open>k\<close> is a casing variant of the
  tag \<open>t\<close> when it has the same length and each of its bytes is the byte of \<open>t\<close> at
  that place or its upper-case letter ("Attributes", "ATTRIBUTES" and "aTTributes" for
  "attributes").
\<close>

definition upperASCII :: "char \<Rightarrow> char" where
  "upperASCII c =
     (let n = (of_char c :: nat) in if 97 \<le> n \<and> n \<le> 122 then char_of (n - 32) else c)"

definition lowerCaseASCII :: "string \<Rightarrow> bool" where
  "lowerCaseASCII t =
     list_all (\<lambda>c. (of_char c :: nat) < 128 \<and> \<not> (65 \<le> (of_char c :: nat) \<and> (of_char c :: nat) \<le> 90)) t"

definition casing_variant :: "string \<Rightarrow> string \<Rightarrow> bool" where
  "casing_variant k t = list_all2 (\<lambda>a b. a = b \<or> a = upperASCII b) k t"

text \<open>
  The struct \<^verbatim>\<open>context\<close>: the declared attributes by id and the root policy (a nil
  interface value is \<open>None\<close>). \<^verbatim>\<open>pdp.Attribute\<close> and \<^verbatim>\<open>pdp.Evaluable\<close> are type
  parameters.
\<close>

record ('a, 'p) jast_context =
  attrs :: "string \<rightharpoonup> 'a"
  rootPolicy :: "'p option"

definition newContext :: "('a, 'p) jast_context" where
  "newContext = \<lparr>attrs = Map.empty, rootPolicy = None\<rparr>"

definition newContextWithAttributes :: "(string \<rightharpoonup> 'a) \<Rightarrow> ('a, 'p) jast_context" where
  "newContextWithAttributes as = \<lparr>attrs = as, rootPolicy = None\<rparr>"

text \<open>
  What \<^verbatim>\<open>unmarshal\<close> uses and the sources do not hold: the Unicode tables of
  \<^verbatim>\<open>strings.ToLower\<close>, the two tag constants, and the two section handlers (methods of
  the context that read the section's value from the decoder).
\<close>

record ('a, 'p) jast =
  unicodeLower :: "string \<Rightarrow> string"
  yastTagAttributes :: string
  yastTagPolicies :: string
  unmarshalAttributeDeclarations :: "('a, 'p) jast_context action"
  unmarshalRootPolicy :: "('a, 'p) jast_context action"

text \<open>
  The function literal that \<^verbatim>\<open>unmarshal\<close> passes to \<^verbatim>\<open>UnmarshalObject\<close>: the switch on
  the lower-cased key, first case first.
\<close>

definition unmarshal_key :: "('a, 'p) jast \<Rightarrow> string \<Rightarrow> ('a, 'p) jast_context action" where
  "unmarshal_key X k s =
     (let tag = ToLower (unicodeLower X) k in
      if tag = yastTagAttributes X then unmarshalAttributeDeclarations X s
      else if tag = yastTagPolicies X then unmarshalRootPolicy X s
      else Some (Some (UnknownAttributeError k), s))"

definition unmarshal :: "('a, 'p) jast \<Rightarrow> ('a, 'p) jast_context action" where
  "unmarshal X s =
     (case CheckRootObjectStart (fst s) of
        ((ok, Some err), d1) \<Rightarrow> Some (Some err, d1, snd s)
      | ((False, None), d1) \<Rightarrow> Some (None, d1, snd s)
      | ((True, None), d1) \<Rightarrow>
          (case UnmarshalObject (unmarshal_key X) ''root'' (d1, snd s) of
             None \<Rightarrow> None
           | Some (Some err, s2) \<Rightarrow> Some (Some err, s2)
           | Some (None, d2, c2) \<Rightarrow> (case CheckEOF d2 of (err, d3) \<Rightarrow> Some (err, d3, c2))))"

section \<open>The section handlers, as the specification describes them\<close>

text \<open>
  Modelled from the spec: the callback of the attribute-declarations section for one
  declaration, part of \<^verbatim>\<open>ctx.unmarshalAttributeDeclarations\<close>, which is not among the
  sources. Section 4.2: "redeclaration of an id is an error". A declaration is a member
  of the section's object: the attribute id is the key and the name of its type is the
  value; a declared attribute is recorded by the name of its type.
\<close>

definition declareAttribute :: "string \<Rightarrow> (string, 'p) jast_context action" where
  "declareAttribute name s =
     (case attrs (snd s) name of
        Some a \<Rightarrow> Some (Some (RedeclaredAttributeError name), s)
      | None \<Rightarrow>
          (case GetString (fst s) ''attribute data type'' of
             (Inl err, d') \<Rightarrow> Some (Some err, d', snd s)
           | (Inr t, d') \<Rightarrow> Some (None, d', (snd s)\<lparr>attrs := (attrs (snd s))(name \<mapsto> t)\<rparr>)))"

text \<open>
  Modelled from the spec: \<^verbatim>\<open>ctx.unmarshalAttributeDeclarations\<close>, which is not among the
  sources: the section is an object, and each of its members is a declaration.
\<close>

definition specAttributeDeclarations :: "(string, 'p) jast_context action" where
  "specAttributeDeclarations s =
     (case CheckObjectStart (fst s) ''attribute declarations'' of
        (Some err, d') \<Rightarrow> Some (Some err, d', snd s)
      | (None, d') \<Rightarrow> UnmarshalObject declareAttribute ''attribute declarations'' (d', snd s))"

text \<open>
  Modelled from the spec: \<^verbatim>\<open>ctx.unmarshalRootPolicy\<close>, which is not among the sources.
  Section 4.2: "declared attributes must be declared before first use" and "every
  referenced function/attribute exists". The grammar of a policy is not part of the
  specification's text, so the parser of the section's value is the parameter
  \<open>entity\<close>: it yields the ids of the attributes that the policy refers to, in the
  order of their use, and the policy tree. The first id that is not declared is an
  error; otherwise the tree becomes the root policy.
\<close>

definition specRootPolicy ::
  "(decoder \<Rightarrow> (error + string list \<times> 'p) \<times> decoder) \<Rightarrow> (string, 'p) jast_context action" where
  "specRootPolicy entity s =
     (case entity (fst s) of
        (Inl err, d') \<Rightarrow> Some (Some err, d', snd s)
      | (Inr (uses, e), d') \<Rightarrow>
          (case find (\<lambda>a. attrs (snd s) a = None) uses of
             Some a \<Rightarrow> Some (Some (UndeclaredAttributeError a), d', snd s)
           | None \<Rightarrow> Some (None, d', (snd s)\<lparr>rootPolicy := Some e\<rparr>)))"

text \<open>
  The parser's dependencies with the two handlers above.
\<close>

definition specJast ::
  "(string \<Rightarrow> string) \<Rightarrow> string \<Rightarrow> string \<Rightarrow> (decoder \<Rightarrow> (error + string list \<times> 'p) \<times> decoder) \<Rightarrow> (string, 'p) jast" where
  "specJast lower tagA tagP entity =
     \<lparr>unicodeLower = lower, yastTagAttributes = tagA, yastTagPolicies = tagP,
      unmarshalAttributeDeclarations = specAttributeDeclarations,
      unmarshalRootPolicy = specRootPolicy entity\<rparr>"

section \<open>The Deny-overrides combining algorithm, as the specification describes it\<close>

text \<open>
  Modelled from the spec: the effects and the decision of section 3 ("Decision: effect,
  obligations"); the combining engine is not among the sources. The diagnostic reason of
  an Indeterminate decision is left out.
\<close>

datatype effect = Permit | Deny | NotApplicable | Indeterminate

record 'o decision =
  effect :: effect
  obligations :: "'o list"

text \<open>
  Modelled from the spec: section 4.4, "Deny-overrides: evaluate all children; if any is
  Deny, result is Deny (collecting that child's obligations); else if any is
  Indeterminate, result is Indeterminate; else if any is Permit, result is Permit; else
  NotApplicable", over the results of the children in their declared order. The winning
  child is the first one with the winning effect.
\<close>

definition denyOverrides :: "'o decision list \<Rightarrow> 'o decision" where
  "denyOverrides children =
     (case find (\<lambda>r. effect r = Deny) children of
        Some r \<Rightarrow> \<lparr>effect = Deny, obligations = obligations r\<rparr>
      | None \<Rightarrow>
          if list_ex (\<lambda>r. effect r = Indeterminate) children
          then \<lparr>effect = Indeterminate, obligations = []\<rparr>
          else (case find (\<lambda>r. effect r = Permit) children of
                  Some r \<Rightarrow> \<lparr>effect = Permit, obligations = obligations r\<rparr>
                | None \<Rightarrow> \<lparr>effect = NotApplicable, obligations = []\<rparr>))"

section \<open>Concrete inputs\<close>

text \<open>
  A well-formed input that ends after the tokens \<open>ts\<close>.
\<close>

definition document :: "token list \<Rightarrow> decoder" where
  "document ts = \<lparr>tokens = ts, failure = None\<rparr>"

text \<open>
  For concrete evaluation: a policy value that is a single string, the id of the one
  attribute the policy refers to (the string also stands for the tree); and the parser's
  dependencies with the tags "attributes" and "policies", the handlers of the previous
  sections and no Unicode mapping.
\<close>

definition exampleEntity :: "decoder \<Rightarrow> (error + string list \<times> string) \<times> decoder" where
  "exampleEntity d =
     (case GetString d ''policy'' of
        (Inl err, d') \<Rightarrow> (Inl err, d')
      | (Inr a, d') \<Rightarrow> (Inr ([a], a), d'))"

definition exampleJast :: "(string, string) jast" where
  "exampleJast = specJast (\<lambda>s. s) ''attributes'' ''policies'' exampleEntity"

section \<open>The object loop and the keys it has dispatched\<close>

lemma UnmarshalObject_key:
  "Token d = (Inr (TString k), d') \<Longrightarrow>
   UnmarshalObject u desc (d, c) =
     (case u k (d', c) of
        None \<Rightarrow> None
      | Some (Some err, s') \<Rightarrow> Some (Some err, s')
      | Some (None, s') \<Rightarrow> UnmarshalObject u desc s')"
  by (subst UnmarshalObject.simps) simp

lemma UnmarshalObject_dispatch_keys:
  "dispatch_keys u s ks = Some s' \<Longrightarrow> UnmarshalObject u desc s = UnmarshalObject u desc s'"
proof (induction ks arbitrary: s)
  case Nil
  then show ?case by simp
next
  case (Cons k ks)
  obtain d c where s: "s = (d, c)" by (cases s)
  from Cons.prems s obtain d' s1 where
    tok: "Token d = (Inr (TString k), d')" and
    call: "u k (d', c) = Some (None, s1)" and
    rest: "dispatch_keys u s1 ks = Some s'"
    by (auto split: prod.splits sum.splits token.splits if_splits option.splits)
  have "UnmarshalObject u desc s = UnmarshalObject u desc s1"
    using tok call by (simp add: s UnmarshalObject_key)
  also have "\<dots> = UnmarshalObject u desc s'"
    using rest by (rule Cons.IH)
  finally show ?case .
qed

lemma unmarshal_started:
  "CheckRootObjectStart d = ((True, None), d1) \<Longrightarrow>
   unmarshal X (d, c) =
     (case UnmarshalObject (unmarshal_key X) ''root'' (d1, c) of
        None \<Rightarrow> None
      | Some (Some err, s2) \<Rightarrow> Some (Some err, s2)
      | Some (None, d2, c2) \<Rightarrow> (case CheckEOF d2 of (err, d3) \<Rightarrow> Some (err, d3, c2)))"
  by (simp add: unmarshal_def)


lemma unmarshal_key_error:
  assumes start: "CheckRootObjectStart d = ((True, None), d1)"
    and keys: "dispatch_keys (unmarshal_key X) (d1, c) ks = Some (d2, c2)"
    and key: "Token d2 = (Inr (TString k), d3)"
    and call: "unmarshal_key X k (d3, c2) = Some (Some err, s4)"
  shows "unmarshal X (d, c) = Some (Some err, s4)"
proof -
  have "UnmarshalObject (unmarshal_key X) ''root'' (d1, c) =
        UnmarshalObject (unmarshal_key X) ''root'' (d2, c2)"
    using keys by (rule UnmarshalObject_dispatch_keys)
  also have "\<dots> = Some (Some err, s4)"
    using key call by (simp add: UnmarshalObject_key)
  finally show ?thesis
    using start by (simp add: unmarshal_started)
qed

lemma unmarshal_at_key:
  assumes start: "CheckRootObjectStart d = ((True, None), d1)"
    and keys: "dispatch_keys (unmarshal_key X) (d1, c) ks = Some (d2, c2)"
    and key: "Token d2 = (Inr (TString k), d3)"
  shows "unmarshal X (d, c) =
     (case unmarshal_key X k (d3, c2) of
        None \<Rightarrow> None
      | Some (Some err, s') \<Rightarrow> Some (Some err, s')
      | Some (None, s') \<Rightarrow>
          (case UnmarshalObject (unmarshal_key X) ''root'' s' of
             None \<Rightarrow> None
           | Some (Some err, s2) \<Rightarrow> Some (Some err, s2)
           | Some (None, d4, c4) \<Rightarrow> Some (fst (CheckEOF d4), snd (CheckEOF d4), c4)))"
proof -
  have "UnmarshalObject (unmarshal_key X) ''root'' (d1, c) =
        UnmarshalObject (unmarshal_key X) ''root'' (d2, c2)"
    using keys by (rule UnmarshalObject_dispatch_keys)
  also have "\<dots> =
     (case unmarshal_key X k (d3, c2) of
        None \<Rightarrow> None
      | Some (Some err, s') \<Rightarrow> Some (Some err, s')
      | Some (None, s') \<Rightarrow> UnmarshalObject (unmarshal_key X) ''root'' s')"
    using key by (rule UnmarshalObject_key)
  finally show ?thesis
    using start
    by (simp add: unmarshal_started split: option.splits prod.splits)
qed

lemma UnmarshalObject_success_keys:
  assumes run: "UnmarshalObject u desc s = Some (None, d', c')"
  shows "\<exists>ks d2. dispatch_keys u s ks = Some (d2, c') \<and> Token d2 = (Inr (Delim CHR ''}''), d')"
proof -
    have gen: "\<forall>d' c'. res = (None, d', c') \<longrightarrow>
            (\<exists>ks d2. dispatch_keys u s ks = Some (d2, c') \<and> Token d2 = (Inr (Delim CHR ''}''), d'))"
      if "UnmarshalObject u desc s = Some res" for res
    proof (rule UnmarshalObject.raw_induct
        [where P = "\<lambda>u desc s res. \<forall>d' c'. res = (None, d', c') \<longrightarrow>
            (\<exists>ks d2. dispatch_keys u s ks = Some (d2, c') \<and> Token d2 = (Inr (Delim CHR ''}''), d'))",
         OF _ that])
      fix loop :: "(string \<Rightarrow> 'a action) \<Rightarrow> string \<Rightarrow> 'a action"
      fix u desc s res
      assume IH: "\<And>u desc s res. loop u desc s = Some res \<Longrightarrow>
          \<forall>d' c'. res = (None, d', c') \<longrightarrow>
            (\<exists>ks d2. dispatch_keys u s ks = Some (d2, c') \<and> Token d2 = (Inr (Delim CHR ''}''), d'))"
      assume body: "(case Token (fst s) of
          (Inl err, d') \<Rightarrow> Some (Some err, d', snd s)
        | (Inr (TString k), d') \<Rightarrow>
            (case u k (d', snd s) of
               None \<Rightarrow> None
             | Some (Some err, s') \<Rightarrow> Some (Some err, s')
             | Some (None, s') \<Rightarrow> loop u desc s')
        | (Inr (Delim c), d') \<Rightarrow>
            if c = CHR ''}'' then Some (None, d', snd s)
            else Some (Some (ObjectEndDelimiterError c desc), d', snd s)
        | (Inr t, d') \<Rightarrow> Some (Some (ObjectTokenError t desc), d', snd s)) = Some res"
      show "\<forall>d' c'. res = (None, d', c') \<longrightarrow>
            (\<exists>ks d2. dispatch_keys u s ks = Some (d2, c') \<and> Token d2 = (Inr (Delim CHR ''}''), d'))"
      proof (intro allI impI)
        fix d' c'
        assume res: "res = (None, d', c')"
        obtain t d1 where tok: "Token (fst s) = (t, d1)" by (cases "Token (fst s)")
        show "\<exists>ks d2. dispatch_keys u s ks = Some (d2, c') \<and> Token d2 = (Inr (Delim CHR ''}''), d')"
        proof (cases "\<exists>k. t = Inr (TString k)")
          case False
          with body tok res have "t = Inr (Delim CHR ''}'') \<and> d1 = d' \<and> snd s = c'"
            by (auto split: sum.splits token.splits if_splits)
          with tok have "dispatch_keys u s [] = Some (fst s, c') \<and>
                         Token (fst s) = (Inr (Delim CHR ''}''), d')"
            by (cases s) auto
          then show ?thesis by blast
        next
          case True
          then obtain k where t: "t = Inr (TString k)" by blast
          from body tok t res obtain s1 where
            call: "u k (d1, snd s) = Some (None, s1)" and rest: "loop u desc s1 = Some res"
            by (auto split: option.splits prod.splits)
          from IH [OF rest] res obtain ks d2 where
            "dispatch_keys u s1 ks = Some (d2, c')" "Token d2 = (Inr (Delim CHR ''}''), d')"
            by blast
          with tok t call have "dispatch_keys u s (k # ks) = Some (d2, c') \<and>
                                Token d2 = (Inr (Delim CHR ''}''), d')"
            by simp
          then show ?thesis by blast
        qed
      qed
    qed
  from gen [OF run] show ?thesis by blast
qed

section \<open>Frame properties of the handlers\<close>


lemma dispatch_keys_rootPolicy_set:
  assumes tags: "yastTagPolicies X \<noteq> yastTagAttributes X"
    and frameA: "\<And>s s'. unmarshalAttributeDeclarations X s = Some (None, s') \<Longrightarrow>
                    rootPolicy (snd s') = rootPolicy (snd s)"
    and setsP: "\<And>s s'. unmarshalRootPolicy X s = Some (None, s') \<Longrightarrow>
                    rootPolicy (snd s') \<noteq> None"
  shows "dispatch_keys (unmarshal_key X) s ks = Some s' \<Longrightarrow>
         (if \<exists>k\<in>set ks. ToLower (unicodeLower X) k = yastTagPolicies X
          then rootPolicy (snd s') \<noteq> None else rootPolicy (snd s') = rootPolicy (snd s))"
proof (induction ks arbitrary: s)
  case Nil
  then show ?case by simp
next
  case (Cons k ks)
  obtain d c where s: "s = (d, c)" by (cases s)
  from Cons.prems s obtain d1 s1 where
    call: "unmarshal_key X k (d1, c) = Some (None, s1)" and
    rest: "dispatch_keys (unmarshal_key X) s1 ks = Some s'"
    by (auto split: prod.splits sum.splits token.splits if_splits option.splits)
  note later = Cons.IH [OF rest]
  show ?case
  proof (cases "ToLower (unicodeLower X) k = yastTagPolicies X")
    case True
    with call tags have "unmarshalRootPolicy X (d1, c) = Some (None, s1)"
      by (simp add: unmarshal_key_def Let_def)
    then have "rootPolicy (snd s1) \<noteq> None"
      by (rule setsP)
    with later True show ?thesis
      by (auto split: if_splits)
  next
    case False
    with call have "unmarshalAttributeDeclarations X (d1, c) = Some (None, s1)"
      by (simp add: unmarshal_key_def Let_def split: if_splits)
    then have "rootPolicy (snd s1) = rootPolicy (snd (d1, c))"
      by (rule frameA)
    with later False show ?thesis
      by (auto simp: s split: if_splits)
  qed
qed

lemma declareAttribute_rootPolicy:
  "declareAttribute a s = Some (r, s') \<Longrightarrow> rootPolicy (snd s') = rootPolicy (snd s)"
  by (auto simp: declareAttribute_def split: option.splits prod.splits sum.splits)

lemma UnmarshalObject_rootPolicy:
  fixes u :: "string \<Rightarrow> ('a, 'b) jast_context action"
  assumes u: "\<And>k s r s'. u k s = Some (r, s') \<Longrightarrow> rootPolicy (snd s') = rootPolicy (snd s)"
    and run: "UnmarshalObject u desc s = Some (r, s')"
  shows "rootPolicy (snd s') = rootPolicy (snd s)"
proof -
  have "u = u \<longrightarrow> rootPolicy (snd (snd (r, s'))) = rootPolicy (snd s)"
  proof (rule UnmarshalObject.raw_induct
      [where P = "\<lambda>u' desc s res. u' = u \<longrightarrow> rootPolicy (snd (snd res)) = rootPolicy (snd s)",
       OF _ run])
    fix loop :: "(string \<Rightarrow> ('a, 'b) jast_context action) \<Rightarrow> string \<Rightarrow> ('a, 'b) jast_context action"
    fix u' desc s res
    assume IH: "\<And>u' desc s res. loop u' desc s = Some res \<Longrightarrow>
                  u' = u \<longrightarrow> rootPolicy (snd (snd res)) = rootPolicy (snd s)"
    assume body: "(case Token (fst s) of
        (Inl err, d') \<Rightarrow> Some (Some err, d', snd s)
      | (Inr (TString k), d') \<Rightarrow>
          (case u' k (d', snd s) of
             None \<Rightarrow> None
           | Some (Some err, s') \<Rightarrow> Some (Some err, s')
           | Some (None, s') \<Rightarrow> loop u' desc s')
      | (Inr (Delim c), d') \<Rightarrow>
          if c = CHR ''}'' then Some (None, d', snd s)
          else Some (Some (ObjectEndDelimiterError c desc), d', snd s)
      | (Inr t, d') \<Rightarrow> Some (Some (ObjectTokenError t desc), d', snd s)) = Some res"
    show "u' = u \<longrightarrow> rootPolicy (snd (snd res)) = rootPolicy (snd s)"
    proof
      assume same: "u' = u"
      obtain t d' where tok: "Token (fst s) = (t, d')" by (cases "Token (fst s)")
      show "rootPolicy (snd (snd res)) = rootPolicy (snd s)"
      proof (cases "\<exists>k. t = Inr (TString k)")
        case False
        with body tok show ?thesis
          by (auto split: sum.splits token.splits if_splits)
      next
        case True
        then obtain k where t: "t = Inr (TString k)" by blast
        show ?thesis
        proof (cases "u k (d', snd s)")
          case None
          with body tok t same show ?thesis by simp
        next
          case (Some a)
          obtain e s1 where a: "a = (e, s1)" by (cases a)
          have step: "rootPolicy (snd s1) = rootPolicy (snd (d', snd s))"
            using u Some a by blast
          show ?thesis
          proof (cases e)
            case None
            with body tok t same Some a have "loop u desc s1 = Some res" by simp
            from IH [OF this] step show ?thesis by simp
          next
            case (Some err)
            with body tok t same \<open>u k (d', snd s) = Some a\<close> a step show ?thesis by auto
          qed
        qed
      qed
    qed
  qed
  then show ?thesis by simp
qed

lemma specAttributeDeclarations_rootPolicy:
  "specAttributeDeclarations s = Some (r, s') \<Longrightarrow> rootPolicy (snd s') = rootPolicy (snd s)"
  unfolding specAttributeDeclarations_def
  by (auto split: prod.splits option.splits
           dest!: UnmarshalObject_rootPolicy [OF declareAttribute_rootPolicy, rotated])

lemma specRootPolicy_success:
  "specRootPolicy entity s = Some (None, s') \<Longrightarrow> rootPolicy (snd s') \<noteq> None"
  by (auto simp: specRootPolicy_def split: prod.splits sum.splits option.splits)

lemma specRootPolicy_failure:
  "specRootPolicy entity s = Some (Some err, s') \<Longrightarrow> rootPolicy (snd s') = rootPolicy (snd s)"
  by (auto simp: specRootPolicy_def split: prod.splits sum.splits option.splits)

lemma declareAttribute_keys_dom:
  "dispatch_keys declareAttribute s names = Some s' \<Longrightarrow>
   dom (attrs (snd s')) = dom (attrs (snd s)) \<union> set names"
proof (induction names arbitrary: s)
  case Nil
  then show ?case by simp
next
  case (Cons a names)
  obtain d c where s: "s = (d, c)" by (cases s)
  from Cons.prems s obtain d' s1 where
    call: "declareAttribute a (d', c) = Some (None, s1)" and
    rest: "dispatch_keys declareAttribute s1 names = Some s'"
    by (auto split: prod.splits sum.splits token.splits if_splits option.splits)
  from call have "dom (attrs (snd s1)) = insert a (dom (attrs c))"
    by (auto simp: declareAttribute_def split: option.splits prod.splits sum.splits)
  moreover have "dom (attrs (snd s')) = dom (attrs (snd s1)) \<union> set names"
    using rest by (rule Cons.IH)
  ultimately show ?case by (auto simp: s)
qed

section \<open>Case folding of the casing variants\<close>

lemma lowerASCII_of_variant:
  assumes ascii: "(of_char b :: nat) < 128"
    and lower: "\<not> (65 \<le> (of_char b :: nat) \<and> (of_char b :: nat) \<le> 90)"
    and variant: "a = b \<or> a = upperASCII b"
  shows "(of_char a :: nat) < 128 \<and> lowerASCII a = b"
proof (cases "97 \<le> (of_char b :: nat) \<and> (of_char b :: nat) \<le> 122 \<and> a \<noteq> b")
  case False
  with variant have "a = b"
    by (auto simp: upperASCII_def Let_def)
  with ascii lower show ?thesis
    by (auto simp: lowerASCII_def Let_def)
next
  case True
  with variant have a: "a = char_of ((of_char b :: nat) - 32)"
    by (auto simp: upperASCII_def Let_def)
  from True have "(of_char b :: nat) - 32 < 256"
    by linarith
  then have small: "((of_char b :: nat) - 32) mod 256 = of_char b - 32"
    by simp
  have a_num: "(of_char a :: nat) = of_char b - 32"
    by (simp only: a of_char_of small)
  have restored: "(of_char b :: nat) - 32 + 32 = of_char b"
    using True by simp
  from True have upper: "65 \<le> (of_char b :: nat) - 32 \<and> (of_char b :: nat) - 32 \<le> 90"
    by linarith
  have "lowerASCII a = char_of ((of_char b :: nat) - 32 + 32)"
    using upper by (simp add: lowerASCII_def Let_def a_num)
  also have "\<dots> = b"
    by (simp only: restored char_of_char)
  finally show ?thesis
    using upper by (simp add: a_num)
qed

lemma ToLower_casing_variant:
  assumes tag: "lowerCaseASCII t" and variant: "casing_variant k t"
  shows "ToLower U k = t"
proof -
  have "list_all2 (\<lambda>a b. a = b \<or> a = upperASCII b) k t" 
    using variant by (simp add: casing_variant_def)
  then have "list_all (\<lambda>c. (of_char c :: nat) < 128 \<and> \<not> (65 \<le> (of_char c :: nat) \<and> (of_char c :: nat) \<le> 90)) t \<Longrightarrow>
        list_all (\<lambda>c. (of_char c :: nat) < 128) k \<and> map lowerASCII k = t"
  proof (induction rule: list_all2_induct)
    case Nil
    then show ?case by simp
  next
    case (Cons a k b t)
    from Cons.prems have b: "(of_char b :: nat) < 128"
        "\<not> (65 \<le> (of_char b :: nat) \<and> (of_char b :: nat) \<le> 90)"
      and rest: "list_all (\<lambda>c. (of_char c :: nat) < 128 \<and> \<not> (65 \<le> (of_char c :: nat) \<and> (of_char c :: nat) \<le> 90)) t"
      by simp_all
    from lowerASCII_of_variant [OF b Cons.hyps(1)] Cons.IH [OF rest]
    show ?case by simp
  qed
  with tag show ?thesis
    by (simp add: ToLower_def lowerCaseASCII_def)
qed

lemma casing_variant_refl: "casing_variant t t"
  by (simp add: casing_variant_def list_all2_same)

section \<open>The first element of a list with a property\<close>

lemma find_None_set: "find P xs = None \<longleftrightarrow> \<not> (\<exists>x\<in>set xs. P x)"
  by (auto simp: find_None_iff)

lemma find_Some_set: "find P xs = Some x \<Longrightarrow> x \<in> set xs \<and> P x"
  by (auto simp: find_Some_iff)

section \<open>Evaluation of the concrete inputs\<close>

lemma ToLower_examples:
  "ToLower U ''attributes'' = ''attributes''"
  "ToLower U ''policies'' = ''policies''"
  "ToLower U ''Attributes'' = ''attributes''"
  "ToLower U ''ATTRIBUTES'' = ''attributes''"
  "ToLower U ''Policies'' = ''policies''"
  "ToLower U ''Rules'' = ''rules''"
  by code_simp+

lemmas example_defs =
  unmarshal_key_def exampleJast_def specJast_def exampleEntity_def
  specAttributeDeclarations_def specRootPolicy_def declareAttribute_def
  CheckRootObjectStart_def CheckObjectStart_def CheckEOF_def GetString_def Token_def
  document_def newContext_def ToLower_examples

lemma exampleJast_frames:
  "\<forall>s r s'. unmarshalAttributeDeclarations exampleJast s = Some (r, s') \<longrightarrow>
             rootPolicy (snd s') = rootPolicy (snd s)"
  "\<forall>s s'. unmarshalAttributeDeclarations exampleJast s = Some (None, s') \<longrightarrow>
           rootPolicy (snd s') = rootPolicy (snd s)"
  "\<forall>s s'. unmarshalRootPolicy exampleJast s = Some (None, s') \<longrightarrow>
           rootPolicy (snd s') \<noteq> None"
  "\<forall>s e s'. unmarshalRootPolicy exampleJast s = Some (Some e, s') \<longrightarrow>
             rootPolicy (snd s') = rootPolicy (snd s)"
  by (auto simp: exampleJast_def specJast_def
           dest: specAttributeDeclarations_rootPolicy specRootPolicy_success
                 specRootPolicy_failure)

section \<open>Properties of the parser's unmarshal method\<close>




text \<open>
  C2. The dispatch on a key of the root object ignores the case of the key. Let the two
  tag constants be written in lower case, and let the loop over the root object, having
  dispatched the keys \<open>ks\<close> without error, read the key \<open>k\<close>. If \<open>k\<close> is a casing
  variant of the attribute-declarations tag, then \<open>strings.ToLower\<close> maps it to the tag,
  the callback runs the attribute-declarations handler, as it does for the tag itself,
  and \<open>unmarshal\<close> returns what follows from that handler's result: nothing if the
  handler does not return, its error if it returns one, and otherwise the result of the
  rest of the object and of the end-of-input check. The same holds for a casing variant
  of the policies tag and the root-policy handler, the two tags being different.
\<close>

theorem tag_dispatch_ignores_case:
  assumes tagA: "lowerCaseASCII (yastTagAttributes X)"
    and tagP: "lowerCaseASCII (yastTagPolicies X)"
    and start: "CheckRootObjectStart d = ((True, None), d1)"
    and keys: "dispatch_keys (unmarshal_key X) (d1, c) ks = Some (d2, c2)"
    and key: "Token d2 = (Inr (TString k), d3)"
  shows "(casing_variant k (yastTagAttributes X) \<longrightarrow>
            ToLower (unicodeLower X) k = yastTagAttributes X \<and>
            unmarshal_key X k (d3, c2) = unmarshalAttributeDeclarations X (d3, c2) \<and>
            unmarshal_key X k (d3, c2) = unmarshal_key X (yastTagAttributes X) (d3, c2) \<and>
            unmarshal X (d, c) =
              (case unmarshalAttributeDeclarations X (d3, c2) of
                 None \<Rightarrow> None
               | Some (Some err, s') \<Rightarrow> Some (Some err, s')
               | Some (None, s') \<Rightarrow>
                   (case UnmarshalObject (unmarshal_key X) ''root'' s' of
                      None \<Rightarrow> None
                    | Some (Some err, s2) \<Rightarrow> Some (Some err, s2)
                    | Some (None, d4, c4) \<Rightarrow> Some (fst (CheckEOF d4), snd (CheckEOF d4), c4)))) \<and>
         (casing_variant k (yastTagPolicies X) \<and> yastTagPolicies X \<noteq> yastTagAttributes X \<longrightarrow>
            ToLower (unicodeLower X) k = yastTagPolicies X \<and>
            unmarshal_key X k (d3, c2) = unmarshalRootPolicy X (d3, c2) \<and>
            unmarshal_key X k (d3, c2) = unmarshal_key X (yastTagPolicies X) (d3, c2) \<and>
            unmarshal X (d, c) =
              (case unmarshalRootPolicy X (d3, c2) of
                 None \<Rightarrow> None
               | Some (Some err, s') \<Rightarrow> Some (Some err, s')
               | Some (None, s') \<Rightarrow>
                   (case UnmarshalObject (unmarshal_key X) ''root'' s' of
                      None \<Rightarrow> None
                    | Some (Some err, s2) \<Rightarrow> Some (Some err, s2)
                    | Some (None, d4, c4) \<Rightarrow> Some (fst (CheckEOF d4), snd (CheckEOF d4), c4))))"
proof (intro conjI impI)
  assume variant: "casing_variant k (yastTagAttributes X)"
  show folded: "ToLower (unicodeLower X) k = yastTagAttributes X"
    using tagA variant by (rule ToLower_casing_variant)
  have tag: "ToLower (unicodeLower X) (yastTagAttributes X) = yastTagAttributes X"
    using tagA casing_variant_refl by (rule ToLower_casing_variant)
  show call: "unmarshal_key X k (d3, c2) = unmarshalAttributeDeclarations X (d3, c2)"
    using folded by (simp add: unmarshal_key_def Let_def)
  show "unmarshal_key X k (d3, c2) = unmarshal_key X (yastTagAttributes X) (d3, c2)"
    using folded tag by (simp add: unmarshal_key_def Let_def)
  show "unmarshal X (d, c) =
              (case unmarshalAttributeDeclarations X (d3, c2) of
                 None \<Rightarrow> None
               | Some (Some err, s') \<Rightarrow> Some (Some err, s')
               | Some (None, s') \<Rightarrow>
                   (case UnmarshalObject (unmarshal_key X) ''root'' s' of
                      None \<Rightarrow> None
                    | Some (Some err, s2) \<Rightarrow> Some (Some err, s2)
                    | Some (None, d4, c4) \<Rightarrow> Some (fst (CheckEOF d4), snd (CheckEOF d4), c4)))"
    using unmarshal_at_key [OF start keys key] by (simp only: call)
next
  assume variant: "casing_variant k (yastTagPolicies X) \<and> yastTagPolicies X \<noteq> yastTagAttributes X"
  show folded: "ToLower (unicodeLower X) k = yastTagPolicies X"
    using tagP variant by (blast intro: ToLower_casing_variant)
  have tag: "ToLower (unicodeLower X) (yastTagPolicies X) = yastTagPolicies X"
    using tagP casing_variant_refl by (rule ToLower_casing_variant)
  show call: "unmarshal_key X k (d3, c2) = unmarshalRootPolicy X (d3, c2)"
    using folded variant by (simp add: unmarshal_key_def Let_def)
  show "unmarshal_key X k (d3, c2) = unmarshal_key X (yastTagPolicies X) (d3, c2)"
    using folded tag by (simp add: unmarshal_key_def Let_def)
  show "unmarshal X (d, c) =
              (case unmarshalRootPolicy X (d3, c2) of
                 None \<Rightarrow> None
               | Some (Some err, s') \<Rightarrow> Some (Some err, s')
               | Some (None, s') \<Rightarrow>
                   (case UnmarshalObject (unmarshal_key X) ''root'' s' of
                      None \<Rightarrow> None
                    | Some (Some err, s2) \<Rightarrow> Some (Some err, s2)
                    | Some (None, d4, c4) \<Rightarrow> Some (fst (CheckEOF d4), snd (CheckEOF d4), c4)))"
    using unmarshal_at_key [OF start keys key] by (simp only: call)
qed

theorem tag_dispatch_ignores_case_witness:
  "lowerCaseASCII (yastTagAttributes exampleJast) \<and>
   lowerCaseASCII (yastTagPolicies exampleJast) \<and>
   casing_variant ''ATTRIBUTES'' (yastTagAttributes exampleJast) \<and>
   casing_variant ''Policies'' (yastTagPolicies exampleJast) \<and>
   yastTagPolicies exampleJast \<noteq> yastTagAttributes exampleJast \<and>
   CheckRootObjectStart
     (document [Delim CHR ''{'', TString ''ATTRIBUTES'', Delim CHR ''{'', TString ''x'',
                TString ''string'', Delim CHR ''}'', TString ''Policies'', TString ''x'',
                Delim CHR ''}'']) =
     ((True, None),
      document [TString ''ATTRIBUTES'', Delim CHR ''{'', TString ''x'', TString ''string'',
                Delim CHR ''}'', TString ''Policies'', TString ''x'', Delim CHR ''}'']) \<and>
   Token (document [TString ''ATTRIBUTES'', Delim CHR ''{'', TString ''x'', TString ''string'',
                Delim CHR ''}'', TString ''Policies'', TString ''x'', Delim CHR ''}'']) =
     (Inr (TString ''ATTRIBUTES''),
      document [Delim CHR ''{'', TString ''x'', TString ''string'', Delim CHR ''}'',
                TString ''Policies'', TString ''x'', Delim CHR ''}'']) \<and>
   unmarshal_key exampleJast ''ATTRIBUTES''
     (document [Delim CHR ''{'', TString ''x'', TString ''string'', Delim CHR ''}'',
                TString ''Policies'', TString ''x'', Delim CHR ''}''], newContext) =
     unmarshalAttributeDeclarations exampleJast
       (document [Delim CHR ''{'', TString ''x'', TString ''string'', Delim CHR ''}'',
                  TString ''Policies'', TString ''x'', Delim CHR ''}''], newContext) \<and>
   dispatch_keys (unmarshal_key exampleJast)
     (document [TString ''ATTRIBUTES'', Delim CHR ''{'', TString ''x'', TString ''string'',
                Delim CHR ''}'', TString ''Policies'', TString ''x'', Delim CHR ''}''],
      newContext) [''ATTRIBUTES''] =
     Some (document [TString ''Policies'', TString ''x'', Delim CHR ''}''],
           \<lparr>attrs = [''x'' \<mapsto> ''string''], rootPolicy = None\<rparr>) \<and>
   Token (document [TString ''Policies'', TString ''x'', Delim CHR ''}'']) =
     (Inr (TString ''Policies''), document [TString ''x'', Delim CHR ''}'']) \<and>
   unmarshal_key exampleJast ''Policies''
     (document [TString ''x'', Delim CHR ''}''],
      \<lparr>attrs = [''x'' \<mapsto> ''string''], rootPolicy = None\<rparr>) =
     unmarshalRootPolicy exampleJast
       (document [TString ''x'', Delim CHR ''}''],
        \<lparr>attrs = [''x'' \<mapsto> ''string''], rootPolicy = None\<rparr>) \<and>
   unmarshal exampleJast
     (document [Delim CHR ''{'', TString ''ATTRIBUTES'', Delim CHR ''{'', TString ''x'',
                TString ''string'', Delim CHR ''}'', TString ''Policies'', TString ''x'',
                Delim CHR ''}''], newContext) =
     Some (None, document [], \<lparr>attrs = [''x'' \<mapsto> ''string''], rootPolicy = Some ''x''\<rparr>)"
proof -
  have tagA: "lowerCaseASCII (yastTagAttributes exampleJast)"
    unfolding exampleJast_def specJast_def by code_simp
  have tagP: "lowerCaseASCII (yastTagPolicies exampleJast)"
    unfolding exampleJast_def specJast_def by code_simp
  have upper: "casing_variant ''ATTRIBUTES'' (yastTagAttributes exampleJast)"
    unfolding exampleJast_def specJast_def by code_simp
  have capital: "casing_variant ''Policies'' (yastTagPolicies exampleJast)"
    unfolding exampleJast_def specJast_def by code_simp
  have distinct: "yastTagPolicies exampleJast \<noteq> yastTagAttributes exampleJast"
    by (simp add: example_defs)
  have start: "CheckRootObjectStart
     (document [Delim CHR ''{'', TString ''ATTRIBUTES'', Delim CHR ''{'', TString ''x'',
                TString ''string'', Delim CHR ''}'', TString ''Policies'', TString ''x'',
                Delim CHR ''}'']) =
     ((True, None),
      document [TString ''ATTRIBUTES'', Delim CHR ''{'', TString ''x'', TString ''string'',
                Delim CHR ''}'', TString ''Policies'', TString ''x'', Delim CHR ''}''])"
    by (simp add: example_defs)
  have keys0: "dispatch_keys (unmarshal_key exampleJast)
     (document [TString ''ATTRIBUTES'', Delim CHR ''{'', TString ''x'', TString ''string'',
                Delim CHR ''}'', TString ''Policies'', TString ''x'', Delim CHR ''}''],
      newContext) [] =
     Some (document [TString ''ATTRIBUTES'', Delim CHR ''{'', TString ''x'', TString ''string'',
                Delim CHR ''}'', TString ''Policies'', TString ''x'', Delim CHR ''}''],
      newContext)"
    by simp
  have key0: "Token (document [TString ''ATTRIBUTES'', Delim CHR ''{'', TString ''x'', TString ''string'',
                Delim CHR ''}'', TString ''Policies'', TString ''x'', Delim CHR ''}'']) =
     (Inr (TString ''ATTRIBUTES''),
      document [Delim CHR ''{'', TString ''x'', TString ''string'', Delim CHR ''}'',
                TString ''Policies'', TString ''x'', Delim CHR ''}''])"
    by (simp add: example_defs)
  have keys1: "dispatch_keys (unmarshal_key exampleJast)
     (document [TString ''ATTRIBUTES'', Delim CHR ''{'', TString ''x'', TString ''string'',
                Delim CHR ''}'', TString ''Policies'', TString ''x'', Delim CHR ''}''],
      newContext) [''ATTRIBUTES''] =
     Some (document [TString ''Policies'', TString ''x'', Delim CHR ''}''],
           \<lparr>attrs = [''x'' \<mapsto> ''string''], rootPolicy = None\<rparr>)"
    by (simp add: example_defs UnmarshalObject.simps)
  have key1: "Token (document [TString ''Policies'', TString ''x'', Delim CHR ''}'']) =
     (Inr (TString ''Policies''), document [TString ''x'', Delim CHR ''}''])"
    by (simp add: example_defs)
  have handled: "(case unmarshalRootPolicy exampleJast
       (document [TString ''x'', Delim CHR ''}''],
        \<lparr>attrs = [''x'' \<mapsto> ''string''], rootPolicy = None\<rparr>) of
                 None \<Rightarrow> None
               | Some (Some err, s') \<Rightarrow> Some (Some err, s')
               | Some (None, s') \<Rightarrow>
                   (case UnmarshalObject (unmarshal_key exampleJast) ''root'' s' of
                      None \<Rightarrow> None
                    | Some (Some err, s2) \<Rightarrow> Some (Some err, s2)
                    | Some (None, d4, c4) \<Rightarrow> Some (fst (CheckEOF d4), snd (CheckEOF d4), c4))) =
     Some (None, document [], \<lparr>attrs = [''x'' \<mapsto> ''string''], rootPolicy = Some ''x''\<rparr>)"
    by (simp add: example_defs UnmarshalObject.simps)
  from tag_dispatch_ignores_case [OF tagA tagP start keys0 key0]
    tag_dispatch_ignores_case [OF tagA tagP start keys1 key1]
    handled tagA tagP upper capital distinct start key0 keys1 key1
  show ?thesis by metis
qed




text \<open>
  C4, as stated, fails: on the empty input \<open>unmarshal\<close> returns no error, and the
  context holds no root policy.
\<close>

theorem empty_input_has_no_root_policy:
  "unmarshal exampleJast (document [], newContext) = Some (None, document [], newContext) \<and>
   rootPolicy (snd (snd (the (unmarshal exampleJast (document [], newContext))))) = None"
  by (simp add: unmarshal_def CheckRootObjectStart_def Token_def newContext_def document_def)

text \<open>
  C4, amended. Let the two tags be different, let the attribute-declarations handler,
  where it returns no error, leave the root policy as it is, and let the root-policy
  handler, where it returns no error, leave a root policy in the context. Then for every
  input on which \<open>unmarshal\<close> returns no error, either the root-object-start check
  reported no root object and the context is unchanged, or the loop over the root object
  dispatched some keys \<open>ks\<close> without error up to the closing delimiter, the input
  ended there, and the context holds a root policy if one of the keys \<open>ks\<close> is the
  policies tag and otherwise has the root policy it had before the call (none for a new
  context).
\<close>

theorem successful_unmarshal_root_policy:
  assumes success: "unmarshal X (d, c) = Some (None, d', c')"
    and tags: "yastTagPolicies X \<noteq> yastTagAttributes X"
    and frameA: "\<forall>s s'. unmarshalAttributeDeclarations X s = Some (None, s') \<longrightarrow>
                   rootPolicy (snd s') = rootPolicy (snd s)"
    and setsP: "\<forall>s s'. unmarshalRootPolicy X s = Some (None, s') \<longrightarrow>
                   rootPolicy (snd s') \<noteq> None"
  shows "CheckRootObjectStart d = ((False, None), d') \<and> c' = c \<or>
         (\<exists>d1 ks d2 d3.
            CheckRootObjectStart d = ((True, None), d1) \<and>
            dispatch_keys (unmarshal_key X) (d1, c) ks = Some (d2, c') \<and>
            Token d2 = (Inr (Delim CHR ''}''), d3) \<and>
            CheckEOF d3 = (None, d') \<and>
            (if \<exists>k\<in>set ks. ToLower (unicodeLower X) k = yastTagPolicies X
             then rootPolicy c' \<noteq> None else rootPolicy c' = rootPolicy c))"
proof -
  obtain ok e d1 where chk: "CheckRootObjectStart d = ((ok, e), d1)"
    by (metis surj_pair)
  show ?thesis
  proof (cases "ok \<and> e = None")
    case False
    with success chk have "CheckRootObjectStart d = ((False, None), d') \<and> c' = c"
      by (cases e; cases ok) (auto simp: unmarshal_def)
    then show ?thesis by blast
  next
    case True
    with chk have start: "CheckRootObjectStart d = ((True, None), d1)"
      by simp
    from success obtain d3 where
      loop: "UnmarshalObject (unmarshal_key X) ''root'' (d1, c) = Some (None, d3, c')" and
      eof: "CheckEOF d3 = (None, d')"
      by (auto simp: unmarshal_started [OF start] split: option.splits prod.splits)
    from UnmarshalObject_success_keys [OF loop] obtain ks d2 where
      keys: "dispatch_keys (unmarshal_key X) (d1, c) ks = Some (d2, c')" and
      close: "Token d2 = (Inr (Delim CHR ''}''), d3)"
      by blast
    have "if \<exists>k\<in>set ks. ToLower (unicodeLower X) k = yastTagPolicies X
          then rootPolicy (snd (d2, c')) \<noteq> None
          else rootPolicy (snd (d2, c')) = rootPolicy (snd (d1, c))"
      using tags _ _ keys
    proof (rule dispatch_keys_rootPolicy_set)
      show "rootPolicy (snd s') = rootPolicy (snd s)"
        if "unmarshalAttributeDeclarations X s = Some (None, s')" for s s'
        using frameA that by blast
      show "rootPolicy (snd s') \<noteq> None"
        if "unmarshalRootPolicy X s = Some (None, s')" for s s'
        using setsP that by blast
    qed
    then have "if \<exists>k\<in>set ks. ToLower (unicodeLower X) k = yastTagPolicies X
          then rootPolicy c' \<noteq> None else rootPolicy c' = rootPolicy c"
      by (simp cong: if_cong)
    with start keys close eof show ?thesis
      by blast
  qed
qed

theorem successful_unmarshal_root_policy_witness:
  "unmarshal exampleJast
     (document [Delim CHR ''{'', TString ''attributes'', Delim CHR ''{'', TString ''x'',
                TString ''string'', Delim CHR ''}'', TString ''policies'', TString ''x'',
                Delim CHR ''}''], newContext) =
     Some (None, document [], \<lparr>attrs = [''x'' \<mapsto> ''string''], rootPolicy = Some ''x''\<rparr>) \<and>
   yastTagPolicies exampleJast \<noteq> yastTagAttributes exampleJast \<and>
   (CheckRootObjectStart
      (document [Delim CHR ''{'', TString ''attributes'', Delim CHR ''{'', TString ''x'',
                 TString ''string'', Delim CHR ''}'', TString ''policies'', TString ''x'',
                 Delim CHR ''}'']) = ((False, None), document []) \<and>
    \<lparr>attrs = [''x'' \<mapsto> ''string''], rootPolicy = Some ''x''\<rparr> = newContext \<or>
    (\<exists>d1 ks d2 d3.
       CheckRootObjectStart
         (document [Delim CHR ''{'', TString ''attributes'', Delim CHR ''{'', TString ''x'',
                    TString ''string'', Delim CHR ''}'', TString ''policies'', TString ''x'',
                    Delim CHR ''}'']) = ((True, None), d1) \<and>
       dispatch_keys (unmarshal_key exampleJast) (d1, newContext) ks =
         Some (d2, \<lparr>attrs = [''x'' \<mapsto> ''string''], rootPolicy = Some ''x''\<rparr>) \<and>
       Token d2 = (Inr (Delim CHR ''}''), d3) \<and>
       CheckEOF d3 = (None, document []) \<and>
       (if \<exists>k\<in>set ks. ToLower (unicodeLower exampleJast) k = yastTagPolicies exampleJast
        then rootPolicy \<lparr>attrs = [''x'' \<mapsto> ''string''], rootPolicy = Some ''x''\<rparr> \<noteq> None
        else rootPolicy \<lparr>attrs = [''x'' \<mapsto> ''string''], rootPolicy = Some ''x''\<rparr> =
             rootPolicy (newContext :: (string, string) jast_context))))"
proof -
  have success: "unmarshal exampleJast
     (document [Delim CHR ''{'', TString ''attributes'', Delim CHR ''{'', TString ''x'',
                TString ''string'', Delim CHR ''}'', TString ''policies'', TString ''x'',
                Delim CHR ''}''], newContext) =
     Some (None, document [], \<lparr>attrs = [''x'' \<mapsto> ''string''], rootPolicy = Some ''x''\<rparr>)"
    by (simp add: unmarshal_def example_defs UnmarshalObject.simps)
  have tags: "yastTagPolicies exampleJast \<noteq> yastTagAttributes exampleJast"
    by (simp add: example_defs)
  from successful_unmarshal_root_policy
    [OF success tags exampleJast_frames(2) exampleJast_frames(3)] success tags
  show ?thesis by blast
qed

text \<open>
  C5. Deny-overrides over the results of the children: Deny if some child is Deny, with
  the obligations of a denying child; otherwise Indeterminate if some child is
  Indeterminate; otherwise Permit if some child is Permit; otherwise NotApplicable. Over
  [Permit, Deny, NotApplicable] the result is Deny with the obligations of the denying
  child, and over [Permit, Indeterminate] it is Indeterminate.
\<close>

theorem denyOverrides_priorities:
  "effect (denyOverrides rs) =
     (if \<exists>r\<in>set rs. effect r = Deny then Deny
      else if \<exists>r\<in>set rs. effect r = Indeterminate then Indeterminate
      else if \<exists>r\<in>set rs. effect r = Permit then Permit
      else NotApplicable) \<and>
   ((\<exists>r\<in>set rs. effect r = Deny) \<longrightarrow>
      (\<exists>r\<in>set rs. effect r = Deny \<and> obligations (denyOverrides rs) = obligations r)) \<and>
   denyOverrides [\<lparr>effect = Permit, obligations = oP\<rparr>, \<lparr>effect = Deny, obligations = oD\<rparr>,
                  \<lparr>effect = NotApplicable, obligations = oN\<rparr>] =
     \<lparr>effect = Deny, obligations = oD\<rparr> \<and>
   effect (denyOverrides [\<lparr>effect = Permit, obligations = oP\<rparr>,
                          \<lparr>effect = Indeterminate, obligations = oD\<rparr>]) = Indeterminate"
proof (intro conjI)
  show "effect (denyOverrides rs) =
     (if \<exists>r\<in>set rs. effect r = Deny then Deny
      else if \<exists>r\<in>set rs. effect r = Indeterminate then Indeterminate
      else if \<exists>r\<in>set rs. effect r = Permit then Permit
      else NotApplicable)"
    by (auto simp: denyOverrides_def list_ex_iff find_None_set split: option.splits
             dest: find_Some_set)
  show "(\<exists>r\<in>set rs. effect r = Deny) \<longrightarrow>
      (\<exists>r\<in>set rs. effect r = Deny \<and> obligations (denyOverrides rs) = obligations r)"
    by (auto simp: denyOverrides_def find_None_set split: option.splits dest: find_Some_set)
qed (simp_all add: denyOverrides_def)

theorem denyOverrides_priorities_witness:
  "(\<exists>r\<in>set [\<lparr>effect = Permit, obligations = [''log'']\<rparr>,
               \<lparr>effect = Deny, obligations = [''alert'']\<rparr>,
               \<lparr>effect = NotApplicable, obligations = []\<rparr>]. effect r = Deny) \<and>
   effect (denyOverrides [\<lparr>effect = Permit, obligations = [''log'']\<rparr>,
                          \<lparr>effect = Deny, obligations = [''alert'']\<rparr>,
                          \<lparr>effect = NotApplicable, obligations = []\<rparr>]) = Deny \<and>
   obligations (denyOverrides [\<lparr>effect = Permit, obligations = [''log'']\<rparr>,
                               \<lparr>effect = Deny, obligations = [''alert'']\<rparr>,
                               \<lparr>effect = NotApplicable, obligations = []\<rparr>]) = [''alert'']"
  using denyOverrides_priorities
    [where rs = "[\<lparr>effect = Permit, obligations = [''log'']\<rparr>,
                  \<lparr>effect = Deny, obligations = [''alert'']\<rparr>,
                  \<lparr>effect = NotApplicable, obligations = []\<rparr>]"
       and oP = "[''log'']" and oD = "[''alert'']" and oN = "[]"]
  by simp

text \<open>
  C6. With the section handlers as the specification describes them, \<open>unmarshal\<close>
  returns an error for a use before declaration and for a redeclaration. The sections
  are handled in document order on the one context: when the loop over the root object
  has dispatched the keys \<open>ks\<close> and the next key is the policies tag, a policy that
  refers to an attribute that is not in the context's attributes at that point is
  rejected with \<open>UndeclaredAttributeError\<close>; when the next key is the
  attribute-declarations tag and, after the declarations \<open>names\<close> of that section, the
  next declared id \<open>a\<close> is among \<open>names\<close> or was in the context's attributes when
  the section began, it is rejected with \<open>RedeclaredAttributeError a\<close>.
\<close>

theorem undeclared_or_redeclared_is_error:
  assumes X: "X = specJast lower tagA tagP entity"
    and start: "CheckRootObjectStart d = ((True, None), d1)"
    and keys: "dispatch_keys (unmarshal_key X) (d1, c) ks = Some (d2, c2)"
    and key: "Token d2 = (Inr (TString k), d3)"
  shows "(ToLower lower k = tagP \<and> tagP \<noteq> tagA \<and> entity d3 = (Inr (uses, e), d4) \<and>
          (\<exists>a\<in>set uses. attrs c2 a = None) \<longrightarrow>
            (\<exists>a\<in>set uses. attrs c2 a = None \<and>
               unmarshal X (d, c) = Some (Some (UndeclaredAttributeError a), d4, c2))) \<and>
         (ToLower lower k = tagA \<and>
          CheckObjectStart d3 ''attribute declarations'' = (None, d5) \<and>
          dispatch_keys declareAttribute (d5, c2) names = Some (d6, c6) \<and>
          Token d6 = (Inr (TString a), d7) \<and> (attrs c2 a \<noteq> None \<or> a \<in> set names) \<longrightarrow>
            unmarshal X (d, c) = Some (Some (RedeclaredAttributeError a), d7, c6))"
proof (intro conjI impI)
  assume use: "ToLower lower k = tagP \<and> tagP \<noteq> tagA \<and> entity d3 = (Inr (uses, e), d4) \<and>
          (\<exists>a\<in>set uses. attrs c2 a = None)"
  then obtain a where a: "find (\<lambda>a. attrs c2 a = None) uses = Some a"
    by (cases "find (\<lambda>a. attrs c2 a = None) uses") (auto simp: find_None_iff)
  then have in_uses: "a \<in> set uses" and undeclared: "attrs c2 a = None"
    by (auto simp: find_Some_iff)
  have "unmarshal_key X k (d3, c2) = Some (Some (UndeclaredAttributeError a), d4, c2)"
    using use a by (simp add: X specJast_def unmarshal_key_def specRootPolicy_def)
  then have "unmarshal X (d, c) = Some (Some (UndeclaredAttributeError a), d4, c2)"
    by (rule unmarshal_key_error [OF start keys key])
  with in_uses undeclared
  show "\<exists>a\<in>set uses. attrs c2 a = None \<and>
          unmarshal X (d, c) = Some (Some (UndeclaredAttributeError a), d4, c2)"
    by blast
next
  assume decl: "ToLower lower k = tagA \<and>
          CheckObjectStart d3 ''attribute declarations'' = (None, d5) \<and>
          dispatch_keys declareAttribute (d5, c2) names = Some (d6, c6) \<and>
          Token d6 = (Inr (TString a), d7) \<and> (attrs c2 a \<noteq> None \<or> a \<in> set names)"
  then have tag: "ToLower lower k = tagA"
    and opened: "CheckObjectStart d3 ''attribute declarations'' = (None, d5)"
    and declared_keys: "dispatch_keys declareAttribute (d5, c2) names = Some (d6, c6)"
    and next_key: "Token d6 = (Inr (TString a), d7)"
    and earlier: "attrs c2 a \<noteq> None \<or> a \<in> set names"
    by blast+
  have "dom (attrs (snd (d6, c6))) = dom (attrs (snd (d5, c2))) \<union> set names"
    using declared_keys by (rule declareAttribute_keys_dom)
  with earlier have "a \<in> dom (attrs c6)"
    by auto
  then obtain v where declared: "attrs c6 a = Some v"
    by blast
  have "unmarshal_key X k (d3, c2) =
        UnmarshalObject declareAttribute ''attribute declarations'' (d5, c2)"
    using tag opened by (simp add: X specJast_def unmarshal_key_def specAttributeDeclarations_def)
  also have "\<dots> = UnmarshalObject declareAttribute ''attribute declarations'' (d6, c6)"
    using declared_keys by (rule UnmarshalObject_dispatch_keys)
  also have "\<dots> = Some (Some (RedeclaredAttributeError a), d7, c6)"
    using declared by (simp add: UnmarshalObject_key [OF next_key] declareAttribute_def)
  finally show "unmarshal X (d, c) = Some (Some (RedeclaredAttributeError a), d7, c6)"
    by (rule unmarshal_key_error [OF start keys key])
qed

theorem undeclared_or_redeclared_is_error_witness:
  "unmarshal exampleJast
     (document [Delim CHR ''{'', TString ''policies'', TString ''x'', TString ''attributes'',
                Delim CHR ''{'', TString ''x'', TString ''string'', Delim CHR ''}'',
                Delim CHR ''}''], newContext) =
     Some (Some (UndeclaredAttributeError ''x''),
           document [TString ''attributes'', Delim CHR ''{'', TString ''x'', TString ''string'',
                     Delim CHR ''}'', Delim CHR ''}''],
           newContext) \<and>
   unmarshal exampleJast
     (document [Delim CHR ''{'', TString ''attributes'', Delim CHR ''{'', TString ''x'',
                TString ''string'', TString ''x'', TString ''integer'', Delim CHR ''}'',
                Delim CHR ''}''], newContext) =
     Some (Some (RedeclaredAttributeError ''x''),
           document [TString ''integer'', Delim CHR ''}'', Delim CHR ''}''],
           \<lparr>attrs = [''x'' \<mapsto> ''string''], rootPolicy = None\<rparr>)"
proof -
  have X: "exampleJast = specJast (\<lambda>s. s) ''attributes'' ''policies'' exampleEntity"
    by (simp add: exampleJast_def)
  have start1: "CheckRootObjectStart
     (document [Delim CHR ''{'', TString ''policies'', TString ''x'', TString ''attributes'',
                Delim CHR ''{'', TString ''x'', TString ''string'', Delim CHR ''}'',
                Delim CHR ''}'']) =
     ((True, None),
      document [TString ''policies'', TString ''x'', TString ''attributes'',
                Delim CHR ''{'', TString ''x'', TString ''string'', Delim CHR ''}'',
                Delim CHR ''}''])"
    by (simp add: example_defs)
  have keys1: "dispatch_keys (unmarshal_key exampleJast)
     (document [TString ''policies'', TString ''x'', TString ''attributes'',
                Delim CHR ''{'', TString ''x'', TString ''string'', Delim CHR ''}'',
                Delim CHR ''}''], newContext) [] =
     Some (document [TString ''policies'', TString ''x'', TString ''attributes'',
                Delim CHR ''{'', TString ''x'', TString ''string'', Delim CHR ''}'',
                Delim CHR ''}''], newContext)"
    by simp
  have key1: "Token (document [TString ''policies'', TString ''x'', TString ''attributes'',
                Delim CHR ''{'', TString ''x'', TString ''string'', Delim CHR ''}'',
                Delim CHR ''}'']) =
     (Inr (TString ''policies''),
      document [TString ''x'', TString ''attributes'',
                Delim CHR ''{'', TString ''x'', TString ''string'', Delim CHR ''}'',
                Delim CHR ''}''])"
    by (simp add: example_defs)
  have use: "ToLower (\<lambda>s. s) ''policies'' = ''policies'' \<and> ''policies'' \<noteq> ''attributes'' \<and>
     exampleEntity (document [TString ''x'', TString ''attributes'',
                Delim CHR ''{'', TString ''x'', TString ''string'', Delim CHR ''}'',
                Delim CHR ''}'']) =
       (Inr ([''x''], ''x''),
        document [TString ''attributes'', Delim CHR ''{'', TString ''x'', TString ''string'',
                  Delim CHR ''}'', Delim CHR ''}'']) \<and>
     (\<exists>a\<in>set [''x'']. attrs (newContext :: (string, string) jast_context) a = None)"
    by (simp add: example_defs)
  from undeclared_or_redeclared_is_error [OF X start1 keys1 key1] use
  have first: "unmarshal exampleJast
     (document [Delim CHR ''{'', TString ''policies'', TString ''x'', TString ''attributes'',
                Delim CHR ''{'', TString ''x'', TString ''string'', Delim CHR ''}'',
                Delim CHR ''}''], newContext) =
     Some (Some (UndeclaredAttributeError ''x''),
           document [TString ''attributes'', Delim CHR ''{'', TString ''x'', TString ''string'',
                     Delim CHR ''}'', Delim CHR ''}''],
           newContext)"
    by fastforce
  have start2: "CheckRootObjectStart
     (document [Delim CHR ''{'', TString ''attributes'', Delim CHR ''{'', TString ''x'',
                TString ''string'', TString ''x'', TString ''integer'', Delim CHR ''}'',
                Delim CHR ''}'']) =
     ((True, None),
      document [TString ''attributes'', Delim CHR ''{'', TString ''x'',
                TString ''string'', TString ''x'', TString ''integer'', Delim CHR ''}'',
                Delim CHR ''}''])"
    by (simp add: example_defs)
  have keys2: "dispatch_keys (unmarshal_key exampleJast)
     (document [TString ''attributes'', Delim CHR ''{'', TString ''x'',
                TString ''string'', TString ''x'', TString ''integer'', Delim CHR ''}'',
                Delim CHR ''}''], newContext) [] =
     Some (document [TString ''attributes'', Delim CHR ''{'', TString ''x'',
                TString ''string'', TString ''x'', TString ''integer'', Delim CHR ''}'',
                Delim CHR ''}''], newContext)"
    by simp
  have key2: "Token (document [TString ''attributes'', Delim CHR ''{'', TString ''x'',
                TString ''string'', TString ''x'', TString ''integer'', Delim CHR ''}'',
                Delim CHR ''}'']) =
     (Inr (TString ''attributes''),
      document [Delim CHR ''{'', TString ''x'',
                TString ''string'', TString ''x'', TString ''integer'', Delim CHR ''}'',
                Delim CHR ''}''])"
    by (simp add: example_defs)
  have again: "ToLower (\<lambda>s. s) ''attributes'' = ''attributes'' \<and>
     CheckObjectStart (document [Delim CHR ''{'', TString ''x'',
                TString ''string'', TString ''x'', TString ''integer'', Delim CHR ''}'',
                Delim CHR ''}'']) ''attribute declarations'' =
       (None, document [TString ''x'', TString ''string'', TString ''x'', TString ''integer'',
                        Delim CHR ''}'', Delim CHR ''}'']) \<and>
     dispatch_keys declareAttribute
       (document [TString ''x'', TString ''string'', TString ''x'', TString ''integer'',
                  Delim CHR ''}'', Delim CHR ''}''],
        newContext :: (string, string) jast_context) [''x''] =
       Some (document [TString ''x'', TString ''integer'', Delim CHR ''}'', Delim CHR ''}''],
             \<lparr>attrs = [''x'' \<mapsto> ''string''], rootPolicy = None\<rparr>) \<and>
     Token (document [TString ''x'', TString ''integer'', Delim CHR ''}'', Delim CHR ''}'']) =
       (Inr (TString ''x''), document [TString ''integer'', Delim CHR ''}'', Delim CHR ''}'']) \<and>
     (attrs (newContext :: (string, string) jast_context) ''x'' \<noteq> None \<or> ''x'' \<in> set [''x''])"
    by (simp add: example_defs)
  from undeclared_or_redeclared_is_error [OF X start2 keys2 key2] again
  have second: "unmarshal exampleJast
     (document [Delim CHR ''{'', TString ''attributes'', Delim CHR ''{'', TString ''x'',
                TString ''string'', TString ''x'', TString ''integer'', Delim CHR ''}'',
                Delim CHR ''}''], newContext) =
     Some (Some (RedeclaredAttributeError ''x''),
           document [TString ''integer'', Delim CHR ''}'', Delim CHR ''}''],
           \<lparr>attrs = [''x'' \<mapsto> ''string''], rootPolicy = None\<rparr>)"
    by blast
  from first second show ?thesis by blast
qed

text \<open>
  C7. When the root-object-start check reports that there is no root object, with no
  error, \<open>unmarshal\<close> returns no error and leaves the context as it was: a new
  context still has no root policy and no attribute declarations.
\<close>

theorem no_root_object_is_success:
  assumes "CheckRootObjectStart d = ((False, None), d')"
  shows "unmarshal X (d, c) = Some (None, d', c) \<and>
         unmarshal X (d, newContext) = Some (None, d', newContext) \<and>
         rootPolicy (snd (snd (the (unmarshal X (d, newContext))))) = None \<and>
         attrs (snd (snd (the (unmarshal X (d, newContext))))) = Map.empty"
  using assms by (simp add: unmarshal_def newContext_def)

theorem no_root_object_is_success_witness:
  "CheckRootObjectStart (document []) = ((False, None), document []) \<and>
   unmarshal exampleJast (document [], newContext) = Some (None, document [], newContext) \<and>
   rootPolicy (snd (snd (the (unmarshal exampleJast (document [], newContext))))) = None \<and>
   attrs (snd (snd (the (unmarshal exampleJast (document [], newContext))))) = Map.empty"
proof -
  have absent: "CheckRootObjectStart (document []) = ((False, None), document [])"
    by (simp add: example_defs)
  from no_root_object_is_success [OF absent, of exampleJast newContext] absent
  show ?thesis by blast
qed

text \<open>
  C8. After the root object has been read without error, the result of \<open>unmarshal\<close>
  is the result of the end-of-input check on the rest of the input; when a token \<open>t\<close>
  follows the root object, that is the error \<open>MissingEOFError t\<close> and not success.
\<close>

theorem trailing_content_is_error:
  assumes start: "CheckRootObjectStart d = ((True, None), d1)"
    and obj: "UnmarshalObject (unmarshal_key X) ''root'' (d1, c) = Some (None, d2, c2)"
  shows "unmarshal X (d, c) = Some (fst (CheckEOF d2), snd (CheckEOF d2), c2) \<and>
         (\<forall>t ts. tokens d2 = t # ts \<longrightarrow>
            unmarshal X (d, c) = Some (Some (MissingEOFError t), d2\<lparr>tokens := ts\<rparr>, c2))"
  using start obj
  by (auto simp: unmarshal_started CheckEOF_def Token_def split: prod.splits)

theorem trailing_content_is_error_witness:
  "CheckRootObjectStart (document [Delim CHR ''{'', Delim CHR ''}'', TNull]) =
     ((True, None), document [Delim CHR ''}'', TNull]) \<and>
   UnmarshalObject (unmarshal_key exampleJast) ''root''
     (document [Delim CHR ''}'', TNull], newContext) = Some (None, document [TNull], newContext) \<and>
   unmarshal exampleJast (document [Delim CHR ''{'', Delim CHR ''}'', TNull], newContext) =
     Some (Some (MissingEOFError TNull), document [], newContext)"
proof -
  have start: "CheckRootObjectStart (document [Delim CHR ''{'', Delim CHR ''}'', TNull]) =
     ((True, None), document [Delim CHR ''}'', TNull])"
    by (simp add: example_defs)
  have obj: "UnmarshalObject (unmarshal_key exampleJast) ''root''
     (document [Delim CHR ''}'', TNull], newContext) = Some (None, document [TNull], newContext)"
    by (simp add: example_defs UnmarshalObject.simps)
  have trailing: "tokens (document [TNull]) = [TNull]"
    by (simp add: document_def)
  have rest: "(document [TNull])\<lparr>tokens := []\<rparr> = document []"
    by (simp add: document_def)
  from trailing_content_is_error [OF start obj] trailing
  have "unmarshal exampleJast (document [Delim CHR ''{'', Delim CHR ''}'', TNull], newContext) =
     Some (Some (MissingEOFError TNull), (document [TNull])\<lparr>tokens := []\<rparr>, newContext)"
    by blast
  with start obj rest show ?thesis by simp
qed

section \<open>Properties of InitTracing\<close>

text \<open>
  C9. InitTracing returns a nil tracer and a nil error whenever the endpoint is the empty
  string, whatever the tracing type; with a non-empty endpoint, every tracing type other
  than "zipkin" gives a nil tracer and the error whose message names that type.
\<close>

theorem InitTracing_empty_endpoint_or_invalid_type:
  "InitTracing Z tracingType [] = (None, None) \<and>
   (tracingEP \<noteq> [] \<and> tracingType \<noteq> ''zipkin'' \<longrightarrow>
      InitTracing Z tracingType tracingEP =
        (None, Some (Errorf (''Invalid tracing type: '' @ tracingType))))"
  by (simp add: InitTracing_def)

theorem InitTracing_empty_endpoint_or_invalid_type_witness:
  "InitTracing \<lparr>NewHTTPCollector = (\<lambda>ep. (ep, None)),
                NewRecorder = (\<lambda>c b h s. c),
                NewTracer = (\<lambda>r. (Some r, None))\<rparr> ''jaeger'' [] = (None, None) \<and>
   ''localhost:9411'' \<noteq> [] \<and> ''jaeger'' \<noteq> ''zipkin'' \<and>
   InitTracing \<lparr>NewHTTPCollector = (\<lambda>ep. (ep, None)),
                NewRecorder = (\<lambda>c b h s. c),
                NewTracer = (\<lambda>r. (Some r, None))\<rparr> ''jaeger'' ''localhost:9411'' =
     (None, Some (Errorf ''Invalid tracing type: jaeger''))"
  using InitTracing_empty_endpoint_or_invalid_type
    [of "\<lparr>NewHTTPCollector = (\<lambda>ep. (ep, None)),
         NewRecorder = (\<lambda>c b h s. c),
         NewTracer = (\<lambda>r. (Some r, None))\<rparr>" "''jaeger''" "''localhost:9411''"]
  by simp

end
